theory Spec2Isabelle
  imports Main
begin

section \<open>Data model\<close>

text \<open>
  The program is a single Go file, \<^verbatim>\<open>main.go\<close>. A Go pointer is modelled as an
  \<open>option\<close>: \<open>None\<close> is the nil pointer and dereferencing it is a run-time panic, which
  the model returns as a value. A Go \<^verbatim>\<open>error\<close> is an opaque value carrying a message.
\<close>

datatype error = Error string

datatype panic = PanicError error | NilDereference

text \<open>How the process ends: normally with status 0, by a flag-parsing error, or by a panic.\<close>

datatype outcome = Exited | FlagError error | Panicked panic

text \<open>\<^verbatim>\<open>type SecurityGroupNames struct { Names []string }\<close>\<close>

record SecurityGroupNames =
  Names :: "string list"

text \<open>
  The types of the EC2 SDK, with the fields this program reads or writes.
  \<^verbatim>\<open>NetworkInterfaceStatus\<close> is a string type, which \<^verbatim>\<open>%s\<close> prints as it is.
\<close>

record NetworkInterfaceAttachment =
  InstanceId :: "string option"

record NetworkInterface =
  NetworkInterfaceId :: "string option"
  Attachment :: "NetworkInterfaceAttachment option"
  Status :: string

record SecurityGroup =
  GroupName :: "string option"

record Filter =
  Name :: "string option"
  Values :: "string list"

record DescribeNetworkInterfacesInput =
  Filters :: "Filter list"

record DescribeNetworkInterfacesOutput =
  NetworkInterfaces :: "NetworkInterface list"

record DescribeSecurityGroupsInput =
  GroupNames :: "string list"

record DescribeSecurityGroupsOutput =
  SecurityGroups :: "SecurityGroup list"

text \<open>
  The SDK calls are the program's only contact with the outside: they are a parameter of
  the model. \<open>'w\<close> is the state of the outside world (credentials, the network, the remote
  account), which every call may read and change, and \<open>'c\<close> is the loaded configuration,
  from which the client is built. Each call returns an error or a value, and the next world.
\<close>

record ('w, 'c) aws =
  LoadDefaultConfig :: "'w \<Rightarrow> (error + 'c) \<times> 'w"
  DescribeNetworkInterfaces ::
    "'c \<Rightarrow> DescribeNetworkInterfacesInput \<Rightarrow> 'w \<Rightarrow> (error + DescribeNetworkInterfacesOutput) \<times> 'w"
  DescribeSecurityGroups ::
    "'c \<Rightarrow> DescribeSecurityGroupsInput \<Rightarrow> 'w \<Rightarrow> (error + DescribeSecurityGroupsOutput) \<times> 'w"

section \<open>The argument collector\<close>

text \<open>
  \<^verbatim>\<open>func (s *SecurityGroupNames) Set(value string) error\<close>: the collector after the
  call, and the returned error (\<open>None\<close> is Go's \<^verbatim>\<open>nil\<close>).
\<close>

definition Set :: "SecurityGroupNames \<Rightarrow> string \<Rightarrow> SecurityGroupNames \<times> error option" where
  "Set s v = (s\<lparr>Names := Names s @ [v]\<rparr>, None)"

text \<open>
  \<^verbatim>\<open>strings.Join\<close> of the standard library: nothing for no element, the element itself
  for one, and otherwise the first element followed by the separator and the next element,
  for each further element.
\<close>

fun strings_Join :: "string list \<Rightarrow> string \<Rightarrow> string" where
  "strings_Join [] sep = []"
| "strings_Join [x] sep = x"
| "strings_Join (x # xs) sep = foldl (\<lambda>b s. b @ sep @ s) x xs"

text \<open>\<^verbatim>\<open>func (s *SecurityGroupNames) String() string\<close>\<close>

definition String :: "SecurityGroupNames \<Rightarrow> string" where
  "String s = strings_Join (Names s) '',''"

text \<open>
  \<^verbatim>\<open>flag.Var\<close> and \<^verbatim>\<open>flag.Parse\<close> of the standard library, on a command line that
  repeats \<^verbatim>\<open>--security-group-names <value>\<close>: \<open>Set\<close> is called once per occurrence,
  in the order of the command line, and a non-nil error from it ends the parse.
\<close>

fun flag_Parse :: "string list \<Rightarrow> SecurityGroupNames \<Rightarrow> error + SecurityGroupNames" where
  "flag_Parse [] s = Inr s"
| "flag_Parse (v # vs) s =
     (case Set s v of
        (s', Some e) \<Rightarrow> Inl e
      | (s', None) \<Rightarrow> flag_Parse vs s')"

section \<open>The lookups\<close>

text \<open>
  \<^verbatim>\<open>getNetworkInterfacesForSecurityGroup\<close>: the configuration is loaded, the request
  with its one filter is sent, and the interfaces of the response are appended one by one
  to a slice that starts empty. Either error is a panic.
\<close>

definition getNetworkInterfacesForSecurityGroup ::
    "('w, 'c) aws \<Rightarrow> string \<Rightarrow> 'w \<Rightarrow> (panic + NetworkInterface list) \<times> 'w" where
  "getNetworkInterfacesForSecurityGroup sdk securityGroupName w =
     (case LoadDefaultConfig sdk w of
        (Inl err, w1) \<Rightarrow> (Inl (PanicError err), w1)
      | (Inr cfg, w1) \<Rightarrow>
          (case DescribeNetworkInterfaces sdk cfg
                  \<lparr>Filters = [\<lparr>Name = Some ''group-name'', Values = [securityGroupName]\<rparr>]\<rparr> w1 of
             (Inl err, w2) \<Rightarrow> (Inl (PanicError err), w2)
           | (Inr out, w2) \<Rightarrow>
               (Inr (foldl (\<lambda>networkInterfaces networkInterface.
                              networkInterfaces @ [networkInterface])
                           [] (NetworkInterfaces out)), w2)))"

text \<open>
  The loop of \<^verbatim>\<open>getSecurityGroupNames\<close>: each group's name pointer is dereferenced
  and the name appended.
\<close>

fun appendGroupNames :: "string list \<Rightarrow> SecurityGroup list \<Rightarrow> panic + string list" where
  "appendGroupNames securityGroupNames [] = Inr securityGroupNames"
| "appendGroupNames securityGroupNames (securityGroup # rest) =
     (case GroupName securityGroup of
        None \<Rightarrow> Inl NilDereference
      | Some n \<Rightarrow> appendGroupNames (securityGroupNames @ [n]) rest)"

text \<open>\<^verbatim>\<open>getSecurityGroupNames\<close>, which \<^verbatim>\<open>main\<close> never calls.\<close>

definition getSecurityGroupNames :: "('w, 'c) aws \<Rightarrow> 'w \<Rightarrow> (panic + string list) \<times> 'w" where
  "getSecurityGroupNames sdk w =
     (case LoadDefaultConfig sdk w of
        (Inl err, w1) \<Rightarrow> (Inl (PanicError err), w1)
      | (Inr cfg, w1) \<Rightarrow>
          (case DescribeSecurityGroups sdk cfg \<lparr>GroupNames = []\<rparr> w1 of
             (Inl err, w2) \<Rightarrow> (Inl (PanicError err), w2)
           | (Inr out, w2) \<Rightarrow> (appendGroupNames [] (SecurityGroups out), w2)))"

section \<open>Printing\<close>

text \<open>
  Standard output is the list of the writes made to it, in order: every \<^verbatim>\<open>fmt.Printf\<close>
  and \<^verbatim>\<open>fmt.Println\<close> is one write. A function that prints returns its writes
  with its result; the text on the terminal is their concatenation.
\<close>

definition header_line :: "string \<Rightarrow> string" where
  "header_line securityGroupName = ''Security group name: '' @ securityGroupName @ ''\<newline>''"

definition interfaces_line :: string where
  "interfaces_line = ''Network interfaces:\<newline>''"

definition id_line :: "string \<Rightarrow> string" where
  "id_line i = ''  NetworkInterface ID: '' @ i @ ''\<newline>''"

definition instance_line :: "string \<Rightarrow> string" where
  "instance_line i = ''  InstanceId: '' @ i @ ''\<newline>''"

definition status_line :: "string \<Rightarrow> string" where
  "status_line s = ''  Status: '' @ s @ ''\<newline>''"

text \<open>
  The body of the inner loop of \<^verbatim>\<open>main\<close>, for one interface. The arguments of a
  \<^verbatim>\<open>Printf\<close> are evaluated before it writes, so a nil identifier panics after the
  \<^verbatim>\<open>Network interfaces:\<close> line and before anything else.
\<close>

definition main_interface_body :: "NetworkInterface \<Rightarrow> (panic + unit) \<times> string list" where
  "main_interface_body networkInterface =
     (case NetworkInterfaceId networkInterface of
        None \<Rightarrow> (Inl NilDereference, [interfaces_line])
      | Some i \<Rightarrow>
          (Inr (),
           [interfaces_line, id_line i]
           @ (case Attachment networkInterface of
                None \<Rightarrow> []
              | Some a \<Rightarrow> (case InstanceId a of None \<Rightarrow> [] | Some inst \<Rightarrow> [instance_line inst]))
           @ [status_line (Status networkInterface), ''\<newline>'']))"

text \<open>The inner loop of \<^verbatim>\<open>main\<close>, over the interfaces of one group.\<close>

fun main_interfaces_loop :: "NetworkInterface list \<Rightarrow> (panic + unit) \<times> string list" where
  "main_interfaces_loop [] = (Inr (), [])"
| "main_interfaces_loop (networkInterface # rest) =
     (case main_interface_body networkInterface of
        (Inl p, ws) \<Rightarrow> (Inl p, ws)
      | (Inr u, ws) \<Rightarrow>
          (case main_interfaces_loop rest of (r, ws') \<Rightarrow> (r, ws @ ws')))"

text \<open>
  The outer loop of \<^verbatim>\<open>main\<close>, over the names: the lookup comes first, then the header,
  then the inner loop. A panic ends the process with what has been written so far.
\<close>

fun main_names_loop ::
    "('w, 'c) aws \<Rightarrow> string list \<Rightarrow> 'w \<Rightarrow> outcome \<times> string list \<times> 'w" where
  "main_names_loop sdk [] w = (Exited, [], w)"
| "main_names_loop sdk (securityGroupName # rest) w =
     (case getNetworkInterfacesForSecurityGroup sdk securityGroupName w of
        (Inl p, w1) \<Rightarrow> (Panicked p, [], w1)
      | (Inr networkInterfaces, w1) \<Rightarrow>
          (case main_interfaces_loop networkInterfaces of
             (Inl p, ws) \<Rightarrow> (Panicked p, header_line securityGroupName # ws, w1)
           | (Inr u, ws) \<Rightarrow>
               (case main_names_loop sdk rest w1 of
                  (r, ws', w2) \<Rightarrow> (r, header_line securityGroupName # ws @ ws', w2))))"

text \<open>
  \<^verbatim>\<open>main\<close>, on the values of the \<^verbatim>\<open>--security-group-names\<close> flags of the command
  line: the process's outcome, its writes to standard output, and the world it leaves.
\<close>

definition main :: "('w, 'c) aws \<Rightarrow> string list \<Rightarrow> 'w \<Rightarrow> outcome \<times> string list \<times> 'w" where
  "main sdk flag_values w =
     (case flag_Parse flag_values \<lparr>Names = []\<rparr> of
        Inl e \<Rightarrow> (FlagError e, [], w)
      | Inr securityGroupNames \<Rightarrow> main_names_loop sdk (Names securityGroupNames) w)"

section \<open>Reading the output\<close>

text \<open>The writes that are header lines, and those that are instance-id lines.\<close>

definition is_header :: "string \<Rightarrow> bool" where
  "is_header s = (take 21 s = ''Security group name: '')"

definition is_instance_line :: "string \<Rightarrow> bool" where
  "is_instance_line s = (take 14 s = ''  InstanceId: '')"

text \<open>What one interface prints after its \<^verbatim>\<open>Network interfaces:\<close> line.\<close>

definition interface_fields :: "NetworkInterface \<Rightarrow> string list" where
  "interface_fields ni =
     (case NetworkInterfaceId ni of
        None \<Rightarrow> []
      | Some i \<Rightarrow>
          id_line i
          # (case Attachment ni of
               None \<Rightarrow> []
             | Some a \<Rightarrow> (case InstanceId a of None \<Rightarrow> [] | Some inst \<Rightarrow> [instance_line inst]))
          @ [status_line (Status ni), ''\<newline>''])"

text \<open>
  The output of one group as the specification words it: the header line, one
  \<^verbatim>\<open>Network interfaces:\<close> line, then the fields of each interface.
\<close>

definition spec_group_output :: "string \<Rightarrow> NetworkInterface list \<Rightarrow> string list" where
  "spec_group_output securityGroupName nis =
     header_line securityGroupName # interfaces_line # concat (map interface_fields nis)"

text \<open>Every interface of a lookup's result carries an identifier.\<close>

definition identified :: "NetworkInterface list \<Rightarrow> bool" where
  "identified nis = list_all (\<lambda>ni. NetworkInterfaceId ni \<noteq> None) nis"

text \<open>
  The lookups of the names, one after the other, each in the world the one before left:
  the results the program meets when no lookup fails.
\<close>

fun lookups :: "('w, 'c) aws \<Rightarrow> string list \<Rightarrow> 'w \<Rightarrow> (panic + NetworkInterface list) list" where
  "lookups sdk [] w = []"
| "lookups sdk (n # ns) w =
     (case getNetworkInterfacesForSecurityGroup sdk n w of (r, w1) \<Rightarrow> r # lookups sdk ns w1)"

definition succeeded :: "panic + NetworkInterface list \<Rightarrow> bool" where
  "succeeded r = (case r of Inl p \<Rightarrow> False | Inr nis \<Rightarrow> identified nis)"

text \<open>
  What is written for the interfaces of one group: the block of each interface in turn, up
  to and including the \<^verbatim>\<open>Network interfaces:\<close> line of the first interface without
  identifier, where the program panics.
\<close>

fun blocks_written :: "NetworkInterface list \<Rightarrow> string list" where
  "blocks_written [] = []"
| "blocks_written (ni # nis) =
     (case NetworkInterfaceId ni of
        None \<Rightarrow> [interfaces_line]
      | Some i \<Rightarrow> interfaces_line # interface_fields ni @ blocks_written nis)"

text \<open>
  What the program writes for one name and the result of its lookup: nothing when the
  lookup panics, and otherwise the header and the blocks of the interfaces.
\<close>

definition cycle_output :: "string \<Rightarrow> panic + NetworkInterface list \<Rightarrow> string list" where
  "cycle_output n r =
     (case r of
        Inl p \<Rightarrow> []
      | Inr nis \<Rightarrow> header_line n # blocks_written nis)"

section \<open>Observing the requests\<close>

text \<open>
  An SDK that behaves as the given one and also keeps, next to the world, the list of the
  describe-network-interfaces requests it has received.
\<close>

definition recording ::
    "('w, 'c) aws \<Rightarrow> ('w \<times> DescribeNetworkInterfacesInput list, 'c) aws" where
  "recording sdk =
     \<lparr>LoadDefaultConfig =
        (\<lambda>(w, reqs). case LoadDefaultConfig sdk w of (r, w1) \<Rightarrow> (r, (w1, reqs))),
      DescribeNetworkInterfaces =
        (\<lambda>cfg inp (w, reqs).
           case DescribeNetworkInterfaces sdk cfg inp w of (r, w1) \<Rightarrow> (r, (w1, reqs @ [inp]))),
      DescribeSecurityGroups =
        (\<lambda>cfg inp (w, reqs).
           case DescribeSecurityGroups sdk cfg inp w of (r, w1) \<Rightarrow> (r, (w1, reqs)))\<rparr>"

section \<open>An example SDK\<close>

text \<open>
  A small stand-in for the remote account, for running the program on concrete inputs:
  the world counts the SDK calls made, the configuration is a region name, a group name
  of the table has the interfaces listed there, and any other name is an error.
\<close>

definition example_sdk ::
    "(string \<times> NetworkInterface list) list \<Rightarrow> SecurityGroup list \<Rightarrow> (nat, string) aws" where
  "example_sdk table groups =
     \<lparr>LoadDefaultConfig = (\<lambda>w. (Inr ''eu-west-2'', Suc w)),
      DescribeNetworkInterfaces =
        (\<lambda>cfg inp w.
           (case Filters inp of
              [f] \<Rightarrow>
                (case Values f of
                   [n] \<Rightarrow>
                     (case map_of table n of
                        Some nis \<Rightarrow> Inr \<lparr>NetworkInterfaces = nis\<rparr>
                      | None \<Rightarrow> Inl (Error ''InvalidParameterValue''))
                 | _ \<Rightarrow> Inl (Error ''BadRequest''))
            | _ \<Rightarrow> Inl (Error ''BadRequest''),
            Suc w)),
      DescribeSecurityGroups = (\<lambda>cfg inp w. (Inr \<lparr>SecurityGroups = groups\<rparr>, Suc w))\<rparr>"

definition eni_a :: NetworkInterface where
  "eni_a = \<lparr>NetworkInterfaceId = Some ''eni-a'',
            Attachment = Some \<lparr>InstanceId = Some ''i-123''\<rparr>, Status = ''in-use''\<rparr>"

definition eni_b :: NetworkInterface where
  "eni_b = \<lparr>NetworkInterfaceId = Some ''eni-b'', Attachment = None, Status = ''available''\<rparr>"

definition eni_nil :: NetworkInterface where
  "eni_nil = \<lparr>NetworkInterfaceId = None, Attachment = None, Status = ''available''\<rparr>"

definition example_table :: "(string \<times> NetworkInterface list) list" where
  "example_table = [(''web'', [eni_a, eni_b]), (''db'', [eni_a]), (''idle'', []), (''odd'', [eni_nil])]"

section \<open>Slices in a store\<close>

text \<open>
  Whether the returned slice shares memory with the response is a question about backing
  arrays, so the copy loop of \<^verbatim>\<open>getNetworkInterfacesForSecurityGroup\<close> is also modelled
  on a store. A slice is its backing array's address, its length and its capacity; a
  slice of capacity 0 has no backing array.
\<close>

record slice =
  slice_array :: "nat option"
  slice_len :: nat
  slice_cap :: nat

text \<open>
  The store maps the address of each allocated array to its elements, as many as its
  capacity, and holds the next address to allocate.
\<close>

record store =
  cells :: "nat \<Rightarrow> NetworkInterface list option"
  fresh :: nat

text \<open>The zero value of the struct, which fills the unused capacity of a new array.\<close>

definition zero_NetworkInterface :: NetworkInterface where
  "zero_NetworkInterface = \<lparr>NetworkInterfaceId = None, Attachment = None, Status = []\<rparr>"

text \<open>The elements of a slice: the first \<open>slice_len\<close> elements of its array.\<close>

definition slice_elems :: "store \<Rightarrow> slice \<Rightarrow> NetworkInterface list" where
  "slice_elems h s =
     (case slice_array s of
        None \<Rightarrow> []
      | Some a \<Rightarrow> (case cells h a of None \<Rightarrow> [] | Some xs \<Rightarrow> take (slice_len s) xs))"

text \<open>
  The growing branch of Go's built-in \<^verbatim>\<open>append\<close>: a new array of the new capacity is
  allocated, the elements are copied to it, and the new element is stored after them. The
  run-time's choice of the new capacity from the old one is the parameter \<open>newcap\<close>.
\<close>

definition growslice ::
    "(nat \<Rightarrow> nat) \<Rightarrow> slice \<Rightarrow> NetworkInterface \<Rightarrow> store \<Rightarrow> slice \<times> store" where
  "growslice newcap s x h =
     (let c = newcap (slice_cap s); a = fresh h
      in (\<lparr>slice_array = Some a, slice_len = Suc (slice_len s), slice_cap = c\<rparr>,
          h\<lparr>cells := (cells h)(a \<mapsto> slice_elems h s @ x
                                      # replicate (c - Suc (slice_len s)) zero_NetworkInterface),
            fresh := Suc a\<rparr>))"

text \<open>
  \<^verbatim>\<open>append(s, x)\<close>: with room left the element is stored in place, in the array of
  \<open>s\<close>; otherwise the slice grows.
\<close>

definition go_append ::
    "(nat \<Rightarrow> nat) \<Rightarrow> slice \<Rightarrow> NetworkInterface \<Rightarrow> store \<Rightarrow> slice \<times> store" where
  "go_append newcap s x h =
     (case slice_array s of
        None \<Rightarrow> growslice newcap s x h
      | Some a \<Rightarrow>
          if slice_len s < slice_cap s
          then (s\<lparr>slice_len := Suc (slice_len s)\<rparr>,
                h\<lparr>cells := (cells h)(a := map_option (\<lambda>xs. xs[slice_len s := x]) (cells h a))\<rparr>)
          else growslice newcap s x h)"

text \<open>
  The loop \<^verbatim>\<open>for _, networkInterface := range ...NetworkInterfaces\<close> with its
  \<^verbatim>\<open>append\<close>: the length of the ranged slice \<open>r\<close> is fixed at the start, and element
  \<open>i\<close> is read from the store as it is at iteration \<open>i\<close>.
\<close>

function range_append ::
    "(nat \<Rightarrow> nat) \<Rightarrow> slice \<Rightarrow> nat \<Rightarrow> slice \<Rightarrow> store \<Rightarrow> slice \<times> store" where
  "range_append newcap r i networkInterfaces h =
     (if i < slice_len r
      then (case go_append newcap networkInterfaces (slice_elems h r ! i) h of
              (networkInterfaces', h') \<Rightarrow> range_append newcap r (Suc i) networkInterfaces' h')
      else (networkInterfaces, h))"
  by pat_completeness auto
termination
  by (relation "measure (\<lambda>(newcap, r, i, acc, h). slice_len r - i)") auto

text \<open>The loop started as the source does, from \<^verbatim>\<open>[]types.NetworkInterface{}\<close>.\<close>

definition copy_interfaces :: "(nat \<Rightarrow> nat) \<Rightarrow> slice \<Rightarrow> store \<Rightarrow> slice \<times> store" where
  "copy_interfaces newcap r h =
     range_append newcap r 0 \<lparr>slice_array = None, slice_len = 0, slice_cap = 0\<rparr> h"

text \<open>
  What Go guarantees of any store and slice: nothing is allocated at or beyond the next
  address, and a slice's length is at most its capacity, which is the size of its array.
\<close>

definition store_ok :: "store \<Rightarrow> bool" where
  "store_ok h = (\<forall>a. fresh h \<le> a \<longrightarrow> cells h a = None)"

definition slice_ok :: "store \<Rightarrow> slice \<Rightarrow> bool" where
  "slice_ok h s =
     (case slice_array s of
        None \<Rightarrow> slice_len s = 0 \<and> slice_cap s = 0
      | Some a \<Rightarrow>
          slice_len s \<le> slice_cap s
          \<and> (case cells h a of None \<Rightarrow> False | Some xs \<Rightarrow> length xs = slice_cap s))"

text \<open>
  The invariant of the loop after \<open>i\<close> iterations, from the store \<open>h0\<close>: the arrays
  of \<open>h0\<close> are as they were, the accumulated slice is well formed, lives in an array
  allocated since, and holds the first \<open>i\<close> elements of the response.
\<close>

definition copy_inv :: "store \<Rightarrow> slice \<Rightarrow> nat \<Rightarrow> slice \<Rightarrow> store \<Rightarrow> bool" where
  "copy_inv h0 r i acc h =
     (fresh h0 \<le> fresh h
      \<and> (\<forall>a. a < fresh h0 \<longrightarrow> cells h a = cells h0 a)
      \<and> store_ok h \<and> slice_ok h acc
      \<and> (\<forall>b. slice_array acc = Some b \<longrightarrow> fresh h0 \<le> b)
      \<and> slice_elems h acc = take i (slice_elems h0 r)
      \<and> slice_len acc = i \<and> i \<le> slice_len r)"

text \<open>A store holding a response of two interfaces, for running the copy loop.\<close>

definition example_store :: store where
  "example_store = \<lparr>cells = Map.empty(0 \<mapsto> [eni_a, eni_b]), fresh = 1\<rparr>"

definition example_response :: slice where
  "example_response = \<lparr>slice_array = Some 0, slice_len = 2, slice_cap = 2\<rparr>"

section \<open>The collector\<close>

lemma strings_Join_snoc:
  "strings_Join (xs @ [v]) sep = (if xs = [] then v else strings_Join xs sep @ sep @ v)"
proof (cases xs)
  case Nil
  then show ?thesis by simp
next
  case (Cons y ys)
  then show ?thesis by (cases ys) simp_all
qed

text \<open>
  C9. \<open>Set\<close> returns no error for any value and any prior collector, and leaves the
  sequence equal to the prior one with the value appended at the end. \<open>String\<close> is the
  comma-joined values in insertion order: nothing for the empty collector, and after an
  append, the value alone if it is the first, else the prior rendering, a comma and the value.
\<close>

theorem C9_Set_appends_String_joins:
  "snd (Set s v) = None
   \<and> Names (fst (Set s v)) = Names s @ [v]
   \<and> String \<lparr>Names = []\<rparr> = []
   \<and> String (fst (Set s v)) = (if Names s = [] then v else String s @ '','' @ v)"
  by (simp add: Set_def String_def strings_Join_snoc)

section \<open>The main loop\<close>

lemma flag_Parse_collects: "flag_Parse vs s = Inr (s\<lparr>Names := Names s @ vs\<rparr>)"
  by (induction vs arbitrary: s) (simp_all add: Set_def)

lemma main_is_names_loop: "main sdk vs w = main_names_loop sdk vs w"
  by (simp add: main_def flag_Parse_collects)

lemma foldl_snoc_copy: "foldl (\<lambda>acc x. acc @ [x]) ys xs = ys @ xs"
  by (induction xs arbitrary: ys) simp_all

lemma main_interface_body_identified:
  "NetworkInterfaceId ni \<noteq> None \<Longrightarrow>
   main_interface_body ni = (Inr (), interfaces_line # interface_fields ni)"
  by (auto simp: main_interface_body_def interface_fields_def split: option.splits)

lemma main_interface_body_nil:
  "NetworkInterfaceId ni = None \<Longrightarrow> main_interface_body ni = (Inl NilDereference, [interfaces_line])"
  by (simp add: main_interface_body_def)

lemma main_interfaces_loop_identified:
  "identified nis \<Longrightarrow>
   main_interfaces_loop nis = (Inr (), concat (map (\<lambda>ni. interfaces_line # interface_fields ni) nis))"
  by (induction nis) (simp_all add: identified_def main_interface_body_identified)

lemma is_header_header_line: "is_header (header_line n)"
  by (simp add: is_header_def header_line_def)

lemma not_header_interfaces_line: "\<not> is_header interfaces_line"
  by (simp add: is_header_def interfaces_line_def)

lemma no_header_in_fields: "filter is_header (interface_fields ni) = []"
  by (simp add: interface_fields_def is_header_def id_line_def instance_line_def status_line_def
      split: option.splits)

lemma interfaces_loop_writes: "snd (main_interfaces_loop nis) = blocks_written nis"
proof (induction nis)
  case Nil
  then show ?case by simp
next
  case (Cons ni nis)
  show ?case
  proof (cases "NetworkInterfaceId ni")
    case None
    then show ?thesis by (simp add: main_interface_body_nil)
  next
    case (Some i)
    then have "main_interface_body ni = (Inr (), interfaces_line # interface_fields ni)"
      by (simp add: main_interface_body_identified)
    with Cons Some show ?thesis
      by (cases "main_interfaces_loop nis") simp
  qed
qed

lemma blocks_written_identified:
  "identified nis \<Longrightarrow>
   blocks_written nis = concat (map (\<lambda>ni. interfaces_line # interface_fields ni) nis)"
  by (induction nis) (auto simp: identified_def)

lemma headers_of_cycle:
  "succeeded r \<Longrightarrow> filter is_header (cycle_output n r) = [header_line n]"
  by (cases r)
     (simp_all add: succeeded_def cycle_output_def blocks_written_identified
        is_header_header_line filter_concat
        not_header_interfaces_line no_header_in_fields comp_def)

lemma main_names_loop_succeeded:
  "list_all succeeded (lookups sdk ns w) \<Longrightarrow>
   fst (main_names_loop sdk ns w) = Exited \<and>
   fst (snd (main_names_loop sdk ns w)) = concat (map2 cycle_output ns (lookups sdk ns w))"
proof (induction ns arbitrary: w)
  case Nil
  then show ?case by simp
next
  case (Cons n ns)
  obtain r w1 where g: "getNetworkInterfacesForSecurityGroup sdk n w = (r, w1)"
    by (cases "getNetworkInterfacesForSecurityGroup sdk n w")
  with Cons.prems have ok: "succeeded r" and rest: "list_all succeeded (lookups sdk ns w1)"
    by simp_all
  from ok obtain nis where r: "r = Inr nis" and idn: "identified nis"
    by (cases r) (simp_all add: succeeded_def)
  obtain r' out' w2 where m: "main_names_loop sdk ns w1 = (r', out', w2)"
    by (cases "main_names_loop sdk ns w1")
  from Cons.IH [OF rest] m
  have "r' = Exited" and "out' = concat (map2 cycle_output ns (lookups sdk ns w1))"
    by simp_all
  moreover have "cycle_output n r =
      header_line n # concat (map (\<lambda>ni. interfaces_line # interface_fields ni) nis)"
    by (simp add: r cycle_output_def blocks_written_identified [OF idn])
  ultimately show ?case
    by (simp add: g r m main_interfaces_loop_identified [OF idn])
qed

lemma headers_of_cycles:
  "list_all succeeded rs \<Longrightarrow> length rs = length ns \<Longrightarrow>
   filter is_header (concat (map2 cycle_output ns rs)) = map header_line ns"
proof (induction ns arbitrary: rs)
  case Nil
  then show ?case by simp
next
  case (Cons n ns)
  then obtain r rs' where rs: "rs = r # rs'" by (cases rs) simp_all
  with Cons show ?case by (simp add: headers_of_cycle)
qed

lemma length_lookups: "length (lookups sdk ns w) = length ns"
  by (induction ns arbitrary: w) (simp_all split: prod.splits)

lemma main_names_loop_append:
  "main_names_loop sdk xs w = (Exited, out, w1) \<Longrightarrow>
   main_names_loop sdk (xs @ ys) w =
     (case main_names_loop sdk ys w1 of (r, out', w2) \<Rightarrow> (r, out @ out', w2))"
proof (induction xs arbitrary: w out)
  case Nil
  then show ?case by simp
next
  case (Cons n ns)
  then show ?case
    by (auto split: prod.splits sum.splits)
qed

lemma lookup_fails:
  "LoadDefaultConfig sdk w1 = (Inl e, w2) \<or>
   (\<exists>cfg w'. LoadDefaultConfig sdk w1 = (Inr cfg, w') \<and>
      DescribeNetworkInterfaces sdk cfg
        \<lparr>Filters = [\<lparr>Name = Some ''group-name'', Values = [n]\<rparr>]\<rparr> w' = (Inl e, w2)) \<Longrightarrow>
   getNetworkInterfacesForSecurityGroup sdk n w1 = (Inl (PanicError e), w2)"
  by (auto simp: getNetworkInterfacesForSecurityGroup_def)

text \<open>
  C1, as amended. For every list of flag values, duplicates allowed, whose lookups all
  succeed and return only interfaces that carry their identifier,
  the program ends normally, its output is the cycles of the values one after the other
  in the order of the flags, each cycle with the result of its own lookup, and the header
  lines written are exactly the headers of the values, in that order: as many as there
  are flag occurrences, nothing deduplicated.
\<close>

theorem C1_headers_in_flag_order:
  assumes "list_all succeeded (lookups sdk flag_values w)"
  shows "fst (main sdk flag_values w) = Exited
    \<and> fst (snd (main sdk flag_values w)) =
        concat (map2 cycle_output flag_values (lookups sdk flag_values w))
    \<and> filter is_header (fst (snd (main sdk flag_values w))) = map header_line flag_values
    \<and> length (filter is_header (fst (snd (main sdk flag_values w)))) = length flag_values"
proof -
  note run = main_names_loop_succeeded [OF assms]
  have hs: "filter is_header (fst (snd (main sdk flag_values w))) = map header_line flag_values"
    by (simp add: main_is_names_loop run headers_of_cycles [OF assms] length_lookups)
  show ?thesis
    using run hs by (simp add: main_is_names_loop)
qed

theorem C1_witness:
  "list_all succeeded (lookups (example_sdk example_table []) [''db'', ''idle'', ''db''] 0)
   \<and> fst (main (example_sdk example_table []) [''db'', ''idle'', ''db''] 0) = Exited
   \<and> filter is_header (fst (snd (main (example_sdk example_table []) [''db'', ''idle'', ''db''] 0)))
       = [''Security group name: db\<newline>'', ''Security group name: idle\<newline>'',
          ''Security group name: db\<newline>'']"
proof -
  have h: "list_all succeeded (lookups (example_sdk example_table []) [''db'', ''idle'', ''db''] 0)"
    by (simp add: getNetworkInterfacesForSecurityGroup_def example_sdk_def example_table_def
        succeeded_def identified_def eni_a_def)
  note c = C1_headers_in_flag_order [OF h]
  from c have a: "fst (main (example_sdk example_table []) [''db'', ''idle'', ''db''] 0) = Exited"
    by (rule conjunct1)
  from c have b: "filter is_header
      (fst (snd (main (example_sdk example_table []) [''db'', ''idle'', ''db''] 0)))
      = map header_line [''db'', ''idle'', ''db'']"
    by blast
  show ?thesis
    by (intro conjI) (rule h, rule a, simp add: b header_line_def)
qed

text \<open>
  C1 as stated fails: the lookups of \<open>odd\<close> and \<open>db\<close> both succeed, but the interface of
  \<open>odd\<close> has no identifier, so the program panics in the first cycle and writes one
  header, not two.
\<close>

theorem C1_counterexample:
  "lookups (example_sdk example_table []) [''odd'', ''db''] 0 = [Inr [eni_nil], Inr [eni_a]]
   \<and> main (example_sdk example_table []) [''odd'', ''db''] 0 =
       (Panicked NilDereference,
        [''Security group name: odd\<newline>'', ''Network interfaces:\<newline>''], 2)
   \<and> filter is_header (fst (snd (main (example_sdk example_table []) [''odd'', ''db''] 0)))
       = [''Security group name: odd\<newline>'']
   \<and> filter is_header (fst (snd (main (example_sdk example_table []) [''odd'', ''db''] 0)))
       \<noteq> [''Security group name: odd\<newline>'', ''Security group name: db\<newline>'']"
  by (simp add: main_def Set_def getNetworkInterfacesForSecurityGroup_def example_sdk_def
      example_table_def eni_nil_def main_interface_body_def header_line_def
      interfaces_line_def is_header_def numeral_2_eq_2)

text \<open>
  C8. With no \<^verbatim>\<open>--security-group-names\<close> flag, for every SDK and every world, the
  program ends normally, writes nothing, and leaves the world as it found it: no SDK call
  is made.
\<close>

theorem C8_no_flags: "main sdk [] w = (Exited, [], w)"
  by (simp add: main_def)

text \<open>
  C2. When the names before a name have been processed to the end and that name's lookup
  fails, on loading the configuration or on the describe call, the program panics with
  that error: its output is exactly what the earlier names wrote, with nothing for the
  failing name and nothing for the names after it, and the world is the one the failing
  call left, so no further call is made.
\<close>

theorem C2_lookup_failure_aborts:
  assumes "main sdk before w = (Exited, out, w1)"
    and "LoadDefaultConfig sdk w1 = (Inl e, w2) \<or>
         (\<exists>cfg w'. LoadDefaultConfig sdk w1 = (Inr cfg, w') \<and>
            DescribeNetworkInterfaces sdk cfg
              \<lparr>Filters = [\<lparr>Name = Some ''group-name'', Values = [n]\<rparr>]\<rparr> w' = (Inl e, w2))"
  shows "main sdk (before @ n # after) w = (Panicked (PanicError e), out, w2)"
proof -
  from assms(1) have "main_names_loop sdk before w = (Exited, out, w1)"
    by (simp add: main_is_names_loop)
  from main_names_loop_append [OF this] lookup_fails [OF assms(2)]
  show ?thesis by (simp add: main_is_names_loop)
qed

lemmas run_example =
  main_def Set_def getNetworkInterfacesForSecurityGroup_def example_sdk_def example_table_def
  eni_a_def eni_b_def eni_nil_def main_interface_body_def
  header_line_def interfaces_line_def id_line_def instance_line_def status_line_def

theorem C2_witness:
  "main (example_sdk example_table []) [''db''] 0 =
     (Exited,
      [''Security group name: db\<newline>'', ''Network interfaces:\<newline>'',
       ''  NetworkInterface ID: eni-a\<newline>'', ''  InstanceId: i-123\<newline>'',
       ''  Status: in-use\<newline>'', ''\<newline>''], 2)
   \<and> LoadDefaultConfig (example_sdk example_table []) 2 = (Inr ''eu-west-2'', 3)
   \<and> DescribeNetworkInterfaces (example_sdk example_table []) ''eu-west-2''
        \<lparr>Filters = [\<lparr>Name = Some ''group-name'', Values = [''nope'']\<rparr>]\<rparr> 3
       = (Inl (Error ''InvalidParameterValue''), 4)
   \<and> main (example_sdk example_table []) ([''db''] @ ''nope'' # [''web'']) 0 =
     (Panicked (PanicError (Error ''InvalidParameterValue'')),
      [''Security group name: db\<newline>'', ''Network interfaces:\<newline>'',
       ''  NetworkInterface ID: eni-a\<newline>'', ''  InstanceId: i-123\<newline>'',
       ''  Status: in-use\<newline>'', ''\<newline>''], 4)"
proof -
  have a: "main (example_sdk example_table []) [''db''] 0 =
     (Exited,
      [''Security group name: db\<newline>'', ''Network interfaces:\<newline>'',
       ''  NetworkInterface ID: eni-a\<newline>'', ''  InstanceId: i-123\<newline>'',
       ''  Status: in-use\<newline>'', ''\<newline>''], 2)"
    by (simp add: run_example numeral_2_eq_2)
  have b: "LoadDefaultConfig (example_sdk example_table []) 2 = (Inr ''eu-west-2'', 3)"
    by (simp add: example_sdk_def)
  have c: "DescribeNetworkInterfaces (example_sdk example_table []) ''eu-west-2''
        \<lparr>Filters = [\<lparr>Name = Some ''group-name'', Values = [''nope'']\<rparr>]\<rparr> 3
       = (Inl (Error ''InvalidParameterValue''), 4)"
    by (simp add: example_sdk_def example_table_def)
  have d: "LoadDefaultConfig (example_sdk example_table []) 2
             = (Inl (Error ''InvalidParameterValue''), 4) \<or>
         (\<exists>cfg w'. LoadDefaultConfig (example_sdk example_table []) 2 = (Inr cfg, w') \<and>
            DescribeNetworkInterfaces (example_sdk example_table []) cfg
              \<lparr>Filters = [\<lparr>Name = Some ''group-name'', Values = [''nope'']\<rparr>]\<rparr> w'
              = (Inl (Error ''InvalidParameterValue''), 4))"
    using b c by blast
  show ?thesis
    by (intro conjI) (rule a, rule b, rule c, rule C2_lookup_failure_aborts [OF a d])
qed

text \<open>
  C7, as amended. For a name whose lookup succeeds with no interface, the program writes
  that name's header line and nothing else for it: alone, the name gives exactly the
  header, and before other names the header is followed at once by what they write.
\<close>

theorem C7_zero_interfaces_header_only:
  assumes "getNetworkInterfacesForSecurityGroup sdk n w = (Inr [], w1)"
  shows "main sdk [n] w = (Exited, [header_line n], w1)
    \<and> main sdk (n # rest) w =
        (case main sdk rest w1 of (r, out, w2) \<Rightarrow> (r, header_line n # out, w2))"
  using assms by (simp add: main_is_names_loop)

theorem C7_witness:
  "getNetworkInterfacesForSecurityGroup (example_sdk example_table []) ''idle'' 0 = (Inr [], 2)
   \<and> main (example_sdk example_table []) [''idle''] 0
       = (Exited, [''Security group name: idle\<newline>''], 2)"
proof -
  have a: "getNetworkInterfacesForSecurityGroup (example_sdk example_table []) ''idle'' 0
             = (Inr [], 2)"
    by (simp add: run_example numeral_2_eq_2)
  from C7_zero_interfaces_header_only [OF a]
  have "main (example_sdk example_table []) [''idle''] 0 = (Exited, [header_line ''idle''], 2)"
    by (rule conjunct1)
  with a show ?thesis by (simp add: header_line_def)
qed

text \<open>
  C7 as stated fails: for the group \<open>idle\<close>, which has no interface, the output is the
  header line alone, not the header followed by a \<^verbatim>\<open>Network interfaces:\<close> line.
\<close>

theorem C7_counterexample:
  "getNetworkInterfacesForSecurityGroup (example_sdk example_table []) ''idle'' 0 = (Inr [], 2)
   \<and> fst (snd (main (example_sdk example_table []) [''idle''] 0))
       = [''Security group name: idle\<newline>'']
   \<and> fst (snd (main (example_sdk example_table []) [''idle''] 0))
       \<noteq> [''Security group name: idle\<newline>'', ''Network interfaces:\<newline>'']"
  by (simp add: run_example numeral_2_eq_2)

lemma count_interfaces_line_fields: "count_list (interface_fields ni) interfaces_line = 0"
  by (simp add: interface_fields_def interfaces_line_def id_line_def instance_line_def
      status_line_def split: option.splits)

lemma count_interfaces_line_blocks:
  "count_list (concat (map (\<lambda>ni. interfaces_line # interface_fields ni) nis)) interfaces_line
     = length nis"
  by (induction nis) (simp_all add: count_interfaces_line_fields)

text \<open>
  C3, as amended. For a group whose lookup returns at least one interface, each carrying
  its identifier, the output for the group is the header line and then one block per
  interface, in order, each block being a \<^verbatim>\<open>Network interfaces:\<close> line followed by
  the interface's id line, optional instance-id line, status line and blank line: the
  \<^verbatim>\<open>Network interfaces:\<close> line is written once per interface.
\<close>

theorem C3_interfaces_line_per_interface:
  assumes "getNetworkInterfacesForSecurityGroup sdk n w = (Inr nis, w1)"
    and "nis \<noteq> []" and "identified nis"
  shows "main sdk (n # rest) w =
      (case main sdk rest w1 of
         (r, out, w2) \<Rightarrow>
           (r, header_line n # concat (map (\<lambda>ni. interfaces_line # interface_fields ni) nis) @ out,
            w2))
    \<and> count_list (concat (map (\<lambda>ni. interfaces_line # interface_fields ni) nis)) interfaces_line
        = length nis"
  using assms(1)
  by (simp add: main_is_names_loop main_interfaces_loop_identified [OF assms(3)]
      count_interfaces_line_blocks split: prod.splits)

theorem C3_witness:
  "getNetworkInterfacesForSecurityGroup (example_sdk example_table []) ''web'' 0
     = (Inr [eni_a, eni_b], 2)
   \<and> [eni_a, eni_b] \<noteq> [] \<and> identified [eni_a, eni_b]
   \<and> main (example_sdk example_table []) [''web''] 0 =
      (Exited,
       [''Security group name: web\<newline>'',
        ''Network interfaces:\<newline>'', ''  NetworkInterface ID: eni-a\<newline>'',
        ''  InstanceId: i-123\<newline>'', ''  Status: in-use\<newline>'', ''\<newline>'',
        ''Network interfaces:\<newline>'', ''  NetworkInterface ID: eni-b\<newline>'',
        ''  Status: available\<newline>'', ''\<newline>''], 2)"
proof -
  have a: "getNetworkInterfacesForSecurityGroup (example_sdk example_table []) ''web'' 0
     = (Inr [eni_a, eni_b], 2)"
    by (simp add: getNetworkInterfacesForSecurityGroup_def example_sdk_def example_table_def
        numeral_2_eq_2)
  have b: "[eni_a, eni_b] \<noteq> []" by simp
  have c: "identified [eni_a, eni_b]" by (simp add: identified_def eni_a_def eni_b_def)
  from C3_interfaces_line_per_interface [OF a b c, of "[]"]
  have "main (example_sdk example_table []) [''web''] 0 =
      (case main (example_sdk example_table []) [] 2 of
         (r, out, w2) \<Rightarrow>
           (r, header_line ''web''
               # concat (map (\<lambda>ni. interfaces_line # interface_fields ni) [eni_a, eni_b]) @ out,
            w2))"
    by (rule conjunct1)
  then have "main (example_sdk example_table []) [''web''] 0 =
      (Exited,
       [''Security group name: web\<newline>'',
        ''Network interfaces:\<newline>'', ''  NetworkInterface ID: eni-a\<newline>'',
        ''  InstanceId: i-123\<newline>'', ''  Status: in-use\<newline>'', ''\<newline>'',
        ''Network interfaces:\<newline>'', ''  NetworkInterface ID: eni-b\<newline>'',
        ''  Status: available\<newline>'', ''\<newline>''], 2)"
    by (simp add: main_def interface_fields_def eni_a_def eni_b_def
        header_line_def interfaces_line_def id_line_def instance_line_def status_line_def)
  with a b c show ?thesis by blast
qed

text \<open>
  C3 as stated fails: for the group \<open>web\<close>, which has two interfaces, the output has
  two \<^verbatim>\<open>Network interfaces:\<close> lines, one before each interface, and differs from the
  format with a single such line.
\<close>

theorem C3_counterexample:
  "getNetworkInterfacesForSecurityGroup (example_sdk example_table []) ''web'' 0
     = (Inr [eni_a, eni_b], 2)
   \<and> fst (snd (main (example_sdk example_table []) [''web''] 0)) =
       [''Security group name: web\<newline>'',
        ''Network interfaces:\<newline>'', ''  NetworkInterface ID: eni-a\<newline>'',
        ''  InstanceId: i-123\<newline>'', ''  Status: in-use\<newline>'', ''\<newline>'',
        ''Network interfaces:\<newline>'', ''  NetworkInterface ID: eni-b\<newline>'',
        ''  Status: available\<newline>'', ''\<newline>'']
   \<and> spec_group_output ''web'' [eni_a, eni_b] =
       [''Security group name: web\<newline>'',
        ''Network interfaces:\<newline>'', ''  NetworkInterface ID: eni-a\<newline>'',
        ''  InstanceId: i-123\<newline>'', ''  Status: in-use\<newline>'', ''\<newline>'',
        ''  NetworkInterface ID: eni-b\<newline>'',
        ''  Status: available\<newline>'', ''\<newline>'']
   \<and> fst (snd (main (example_sdk example_table []) [''web''] 0))
       \<noteq> spec_group_output ''web'' [eni_a, eni_b]
   \<and> count_list (fst (snd (main (example_sdk example_table []) [''web''] 0)))
        ''Network interfaces:\<newline>'' = 2"
  by (simp add: run_example spec_group_output_def interface_fields_def numeral_2_eq_2)

section \<open>The instance-id line\<close>

lemma instance_lines_of_body:
  "filter is_instance_line (snd (main_interface_body ni)) =
     (case NetworkInterfaceId ni of
        None \<Rightarrow> []
      | Some i \<Rightarrow>
          (case Attachment ni of
             None \<Rightarrow> []
           | Some a \<Rightarrow> (case InstanceId a of None \<Rightarrow> [] | Some inst \<Rightarrow> [instance_line inst])))"
  by (simp add: main_interface_body_def is_instance_line_def interfaces_line_def id_line_def
      instance_line_def status_line_def split: option.splits)

text \<open>
  C4. For every interface that is printed (it carries its identifier), the loop body ends
  normally and its writes are, in full: the \<^verbatim>\<open>Network interfaces:\<close> line, the id
  line, then the instance-id line with exactly the attachment's instance identifier when
  the interface has an attachment and the attachment has one, and nothing in its place when
  the attachment or its instance identifier is absent, then the status line and the blank
  line. So an instance-id line is among the writes if and only if the attachment and its
  instance identifier are present, and then exactly once.
\<close>

theorem C4_instance_line_iff_attached_instance:
  assumes "NetworkInterfaceId ni = Some i"
  shows "fst (main_interface_body ni) = Inr ()
    \<and> snd (main_interface_body ni) =
        (case Attachment ni of
           None \<Rightarrow>
             [''Network interfaces:\<newline>'', ''  NetworkInterface ID: '' @ i @ ''\<newline>'',
              ''  Status: '' @ Status ni @ ''\<newline>'', ''\<newline>'']
         | Some a \<Rightarrow>
             (case InstanceId a of
                None \<Rightarrow>
                  [''Network interfaces:\<newline>'', ''  NetworkInterface ID: '' @ i @ ''\<newline>'',
                   ''  Status: '' @ Status ni @ ''\<newline>'', ''\<newline>'']
              | Some inst \<Rightarrow>
                  [''Network interfaces:\<newline>'', ''  NetworkInterface ID: '' @ i @ ''\<newline>'',
                   ''  InstanceId: '' @ inst @ ''\<newline>'',
                   ''  Status: '' @ Status ni @ ''\<newline>'', ''\<newline>'']))
    \<and> ((\<exists>l \<in> set (snd (main_interface_body ni)). is_instance_line l)
           \<longleftrightarrow> (\<exists>a inst. Attachment ni = Some a \<and> InstanceId a = Some inst))
    \<and> filter is_instance_line (snd (main_interface_body ni)) =
        (case Attachment ni of
           None \<Rightarrow> []
         | Some a \<Rightarrow> (case InstanceId a of None \<Rightarrow> [] | Some inst \<Rightarrow> [''  InstanceId: '' @ inst @ ''\<newline>'']))"
proof -
  have r: "fst (main_interface_body ni) = Inr ()"
    by (simp add: main_interface_body_def assms)
  have w: "snd (main_interface_body ni) =
        (case Attachment ni of
           None \<Rightarrow>
             [''Network interfaces:\<newline>'', ''  NetworkInterface ID: '' @ i @ ''\<newline>'',
              ''  Status: '' @ Status ni @ ''\<newline>'', ''\<newline>'']
         | Some a \<Rightarrow>
             (case InstanceId a of
                None \<Rightarrow>
                  [''Network interfaces:\<newline>'', ''  NetworkInterface ID: '' @ i @ ''\<newline>'',
                   ''  Status: '' @ Status ni @ ''\<newline>'', ''\<newline>'']
              | Some inst \<Rightarrow>
                  [''Network interfaces:\<newline>'', ''  NetworkInterface ID: '' @ i @ ''\<newline>'',
                   ''  InstanceId: '' @ inst @ ''\<newline>'',
                   ''  Status: '' @ Status ni @ ''\<newline>'', ''\<newline>'']))"
    by (simp add: main_interface_body_def assms interfaces_line_def id_line_def
        instance_line_def status_line_def split: option.splits)
  have f: "filter is_instance_line (snd (main_interface_body ni)) =
        (case Attachment ni of
           None \<Rightarrow> []
         | Some a \<Rightarrow> (case InstanceId a of None \<Rightarrow> [] | Some inst \<Rightarrow> [''  InstanceId: '' @ inst @ ''\<newline>'']))"
    by (simp add: instance_lines_of_body assms instance_line_def split: option.splits)
  have "(\<exists>l \<in> set (snd (main_interface_body ni)). is_instance_line l)
      \<longleftrightarrow> filter is_instance_line (snd (main_interface_body ni)) \<noteq> []"
    by (simp add: filter_empty_conv)
  also have "\<dots> \<longleftrightarrow> (\<exists>a inst. Attachment ni = Some a \<and> InstanceId a = Some inst)"
    by (simp add: f split: option.splits)
  finally have e: "(\<exists>l \<in> set (snd (main_interface_body ni)). is_instance_line l)
      \<longleftrightarrow> (\<exists>a inst. Attachment ni = Some a \<and> InstanceId a = Some inst)" .
  from r w e f show ?thesis by (intro conjI)
qed

theorem C4_witness:
  "NetworkInterfaceId eni_a = Some ''eni-a''
   \<and> snd (main_interface_body eni_a) =
       [''Network interfaces:\<newline>'', ''  NetworkInterface ID: eni-a\<newline>'',
        ''  InstanceId: i-123\<newline>'', ''  Status: in-use\<newline>'', ''\<newline>'']
   \<and> filter is_instance_line (snd (main_interface_body eni_a)) = [''  InstanceId: i-123\<newline>'']
   \<and> NetworkInterfaceId eni_b = Some ''eni-b''
   \<and> snd (main_interface_body eni_b) =
       [''Network interfaces:\<newline>'', ''  NetworkInterface ID: eni-b\<newline>'',
        ''  Status: available\<newline>'', ''\<newline>'']
   \<and> filter is_instance_line (snd (main_interface_body eni_b)) = []"
proof -
  have a: "NetworkInterfaceId eni_a = Some ''eni-a''" by (simp add: eni_a_def)
  have b: "NetworkInterfaceId eni_b = Some ''eni-b''" by (simp add: eni_b_def)
  note ta = C4_instance_line_iff_attached_instance [OF a]
  note tb = C4_instance_line_iff_attached_instance [OF b]
  note ta_writes = ta [THEN conjunct2, THEN conjunct1]
  note ta_lines = ta [THEN conjunct2, THEN conjunct2, THEN conjunct2]
  note tb_writes = tb [THEN conjunct2, THEN conjunct1]
  note tb_lines = tb [THEN conjunct2, THEN conjunct2, THEN conjunct2]
  from ta_writes have a1: "snd (main_interface_body eni_a) =
       [''Network interfaces:\<newline>'', ''  NetworkInterface ID: eni-a\<newline>'',
        ''  InstanceId: i-123\<newline>'', ''  Status: in-use\<newline>'', ''\<newline>'']"
    by (simp add: eni_a_def)
  from ta_lines have a2: "filter is_instance_line (snd (main_interface_body eni_a))
      = [''  InstanceId: i-123\<newline>'']"
    by (simp add: eni_a_def)
  from tb_writes have b1: "snd (main_interface_body eni_b) =
       [''Network interfaces:\<newline>'', ''  NetworkInterface ID: eni-b\<newline>'',
        ''  Status: available\<newline>'', ''\<newline>'']"
    by (simp add: eni_b_def)
  from tb_lines have b2: "filter is_instance_line (snd (main_interface_body eni_b)) = []"
    by (simp add: eni_b_def)
  from a a1 a2 b b1 b2 show ?thesis by (intro conjI)
qed

section \<open>The request\<close>

lemma recording_lookup:
  "getNetworkInterfacesForSecurityGroup (recording sdk) n (w, reqs) =
     (case getNetworkInterfacesForSecurityGroup sdk n w of
        (r, w1) \<Rightarrow>
          (r, (w1, reqs @ (case fst (LoadDefaultConfig sdk w) of
                             Inl e \<Rightarrow> []
                           | Inr cfg \<Rightarrow>
                               [\<lparr>Filters = [\<lparr>Name = Some ''group-name'', Values = [n]\<rparr>]\<rparr>]))))"
  by (simp add: getNetworkInterfacesForSecurityGroup_def recording_def
      split: prod.splits sum.splits)

text \<open>
  C5. For every name, every SDK and every world, the lookup sends no request when the
  configuration fails to load, and otherwise exactly one describe-network-interfaces
  request: the one with a single filter, named \<^verbatim>\<open>group-name\<close>, whose values are the
  one-element list of the name as given. Recording the requests does not change the
  lookup's result.
\<close>

theorem C5_one_group_name_filter:
  "snd (snd (getNetworkInterfacesForSecurityGroup (recording sdk) securityGroupName (w, []))) =
     (case fst (LoadDefaultConfig sdk w) of
        Inl e \<Rightarrow> []
      | Inr cfg \<Rightarrow>
          [\<lparr>Filters = [\<lparr>Name = Some ''group-name'', Values = [securityGroupName]\<rparr>]\<rparr>])
   \<and> fst (getNetworkInterfacesForSecurityGroup (recording sdk) securityGroupName (w, []))
       = fst (getNetworkInterfacesForSecurityGroup sdk securityGroupName w)"
  by (simp add: recording_lookup split: prod.splits)

section \<open>Nil identifiers\<close>

lemma interfaces_loop_result:
  "fst (main_interfaces_loop nis) = (if identified nis then Inr () else Inl NilDereference)"
proof (induction nis)
  case Nil
  then show ?case by (simp add: identified_def)
next
  case (Cons ni nis)
  show ?case
  proof (cases "NetworkInterfaceId ni")
    case None
    then show ?thesis by (simp add: main_interface_body_nil identified_def)
  next
    case (Some i)
    then have "main_interface_body ni = (Inr (), interfaces_line # interface_fields ni)"
      by (simp add: main_interface_body_identified)
    moreover obtain r ws where l: "main_interfaces_loop nis = (r, ws)"
      by (cases "main_interfaces_loop nis")
    moreover from Cons l have "r = (if identified nis then Inr () else Inl NilDereference)"
      by simp
    ultimately show ?thesis
      using Some by (simp add: identified_def)
  qed
qed

lemma appendGroupNames_result:
  "appendGroupNames acc gs =
     (if list_all (\<lambda>g. GroupName g \<noteq> None) gs then Inr (acc @ map (\<lambda>g. the (GroupName g)) gs)
      else Inl NilDereference)"
  by (induction gs arbitrary: acc) (auto split: option.splits)

lemma main_nil_identifier:
  "getNetworkInterfacesForSecurityGroup sdk n w = (Inr nis, w1) \<Longrightarrow> \<not> identified nis \<Longrightarrow>
   main sdk (n # rest) w =
     (Panicked NilDereference, header_line n # snd (main_interfaces_loop nis), w1)"
proof -
  assume g: "getNetworkInterfacesForSecurityGroup sdk n w = (Inr nis, w1)"
    and n: "\<not> identified nis"
  obtain r ws where l: "main_interfaces_loop nis = (r, ws)"
    by (cases "main_interfaces_loop nis")
  with interfaces_loop_result [of nis] n have "r = Inl NilDereference" by simp
  with g l show ?thesis by (simp add: main_is_names_loop)
qed

text \<open>
  C10. The print loop ends without a panic exactly when every interface carries its
  identifier, and panics on a nil dereference otherwise; the loop of
  \<^verbatim>\<open>getSecurityGroupNames\<close> returns the names exactly when every group carries its
  name, and panics on a nil dereference otherwise. A lookup result with an interface
  without identifier makes \<^verbatim>\<open>main\<close> end in that panic, after the header and what the
  print loop wrote before it; and \<^verbatim>\<open>getSecurityGroupNames\<close>, when both SDK calls succeed,
  is its loop on the groups of the response.
\<close>

theorem C10_nil_dereference:
  "fst (main_interfaces_loop nis) = (if identified nis then Inr () else Inl NilDereference)
   \<and> appendGroupNames [] gs =
       (if list_all (\<lambda>g. GroupName g \<noteq> None) gs then Inr (map (\<lambda>g. the (GroupName g)) gs)
        else Inl NilDereference)
   \<and> (getNetworkInterfacesForSecurityGroup sdk n w = (Inr nis, w1) \<longrightarrow> \<not> identified nis \<longrightarrow>
        main sdk (n # rest) w =
          (Panicked NilDereference, header_line n # snd (main_interfaces_loop nis), w1))
   \<and> (LoadDefaultConfig sdk w = (Inr cfg, w0) \<longrightarrow>
        DescribeSecurityGroups sdk cfg \<lparr>GroupNames = []\<rparr> w0 = (Inr out, w2) \<longrightarrow>
        getSecurityGroupNames sdk w = (appendGroupNames [] (SecurityGroups out), w2))"
  by (simp add: interfaces_loop_result appendGroupNames_result main_nil_identifier
      getSecurityGroupNames_def)

theorem C10_witness:
  "getNetworkInterfacesForSecurityGroup (example_sdk example_table []) ''odd'' 0
     = (Inr [eni_nil], 2)
   \<and> \<not> identified [eni_nil]
   \<and> main (example_sdk example_table []) [''odd'', ''db''] 0 =
       (Panicked NilDereference,
        [''Security group name: odd\<newline>'', ''Network interfaces:\<newline>''], 2)
   \<and> fst (main_interfaces_loop [eni_a, eni_b]) = Inr ()
   \<and> appendGroupNames [] [\<lparr>GroupName = Some ''web''\<rparr>, \<lparr>GroupName = None\<rparr>] = Inl NilDereference
   \<and> appendGroupNames [] [\<lparr>GroupName = Some ''web''\<rparr>, \<lparr>GroupName = Some ''db''\<rparr>]
       = Inr [''web'', ''db'']"
proof -
  have a: "getNetworkInterfacesForSecurityGroup (example_sdk example_table []) ''odd'' 0
     = (Inr [eni_nil], 2)"
    by (simp add: getNetworkInterfacesForSecurityGroup_def example_sdk_def example_table_def
        numeral_2_eq_2)
  have b: "\<not> identified [eni_nil]" by (simp add: identified_def eni_nil_def)
  have c: "identified [eni_a, eni_b]" by (simp add: identified_def eni_a_def eni_b_def)
  from C10_nil_dereference [where nis = "[eni_nil]" and sdk = "example_sdk example_table []"
      and n = "''odd''" and w = 0 and ?w1.0 = 2 and rest = "[''db'']"] a b
  have "main (example_sdk example_table []) [''odd'', ''db''] 0 =
       (Panicked NilDereference,
        header_line ''odd'' # snd (main_interfaces_loop [eni_nil]), 2)"
    by blast
  then have m: "main (example_sdk example_table []) [''odd'', ''db''] 0 =
       (Panicked NilDereference,
        [''Security group name: odd\<newline>'', ''Network interfaces:\<newline>''], 2)"
    by (simp add: main_interface_body_def eni_nil_def header_line_def interfaces_line_def)
  have d: "fst (main_interfaces_loop [eni_a, eni_b]) = Inr ()"
    using C10_nil_dereference [where nis = "[eni_a, eni_b]", THEN conjunct1]
    by (simp only: c if_True)
  have e: "appendGroupNames [] [\<lparr>GroupName = Some ''web''\<rparr>, \<lparr>GroupName = None\<rparr>]
      = Inl NilDereference" by simp
  have f: "appendGroupNames [] [\<lparr>GroupName = Some ''web''\<rparr>, \<lparr>GroupName = Some ''db''\<rparr>]
       = Inr [''web'', ''db'']" by simp
  from a b m d e f show ?thesis by blast
qed

section \<open>The copy of the response\<close>

lemma slice_ok_in_store: "store_ok h \<Longrightarrow> slice_ok h s \<Longrightarrow> slice_array s = Some a \<Longrightarrow> a < fresh h"
proof -
  assume s: "store_ok h" and o: "slice_ok h s" and a: "slice_array s = Some a"
  from o a have "cells h a \<noteq> None"
    by (auto simp: slice_ok_def split: option.splits)
  with s have "\<not> fresh h \<le> a"
    by (auto simp: store_ok_def)
  then show ?thesis by simp
qed

lemma length_slice_elems: "slice_ok h s \<Longrightarrow> length (slice_elems h s) = slice_len s"
  by (auto simp: slice_ok_def slice_elems_def split: option.splits)

lemma slice_elems_same_cells:
  "(\<forall>a. slice_array s = Some a \<longrightarrow> cells h' a = cells h a) \<Longrightarrow> slice_elems h' s = slice_elems h s"
  by (auto simp: slice_elems_def split: option.splits)

lemma copy_inv_response:
  assumes "store_ok h0" "slice_ok h0 r" "copy_inv h0 r i acc h"
  shows "slice_elems h r = slice_elems h0 r"
proof (rule slice_elems_same_cells, intro allI impI)
  fix a assume "slice_array r = Some a"
  with assms(1,2) have "a < fresh h0" by (rule slice_ok_in_store)
  with assms(3) show "cells h a = cells h0 a" by (simp add: copy_inv_def)
qed

lemma growslice_inv:
  assumes grow: "\<forall>c. c < newcap c"
    and h0: "store_ok h0" "slice_ok h0 r"
    and inv: "copy_inv h0 r i acc h" and i: "i < slice_len r"
    and full: "slice_array acc = None \<or> \<not> slice_len acc < slice_cap acc"
    and g: "growslice newcap acc (slice_elems h0 r ! i) h = (acc', h')"
  shows "copy_inv h0 r (Suc i) acc' h'"
proof -
  let ?x = "slice_elems h0 r ! i"
  let ?c = "newcap (slice_cap acc)"
  from inv have ok: "store_ok h" "slice_ok h acc" and fr: "fresh h0 \<le> fresh h"
    and old: "\<forall>a. a < fresh h0 \<longrightarrow> cells h a = cells h0 a"
    and el: "slice_elems h acc = take i (slice_elems h0 r)" and len: "slice_len acc = i"
    by (simp_all add: copy_inv_def)
  from full ok(2) have "slice_cap acc \<le> slice_len acc"
    by (auto simp: slice_ok_def split: option.splits)
  with grow have c: "Suc (slice_len acc) \<le> ?c"
  proof -
    from grow have "slice_cap acc < ?c" by blast
    with \<open>slice_cap acc \<le> slice_len acc\<close> ok(2) show ?thesis
      by (auto simp: slice_ok_def split: option.splits)
  qed
  from g have acc': "acc' = \<lparr>slice_array = Some (fresh h), slice_len = Suc (slice_len acc), slice_cap = ?c\<rparr>"
    and h': "h' = h\<lparr>cells := (cells h)(fresh h \<mapsto> slice_elems h acc @ ?x
                        # replicate (?c - Suc (slice_len acc)) zero_NetworkInterface),
                   fresh := Suc (fresh h)\<rparr>"
    by (simp_all add: growslice_def Let_def)
  have l: "length (slice_elems h acc) = slice_len acc"
    using ok(2) by (rule length_slice_elems)
  have lr: "length (slice_elems h0 r) = slice_len r"
    using h0(2) by (rule length_slice_elems)
  have e: "slice_elems h' acc' = take (Suc i) (slice_elems h0 r)"
  proof -
    have "slice_elems h' acc' = slice_elems h acc @ [?x]"
      using l by (simp add: acc' h' slice_elems_def)
    also have "\<dots> = take (Suc i) (slice_elems h0 r)"
      using i lr by (simp add: el take_Suc_conv_app_nth)
    finally show ?thesis .
  qed
  have "store_ok h'" using ok(1) by (simp add: h' store_ok_def)
  moreover have "slice_ok h' acc'" using c l by (simp add: acc' h' slice_ok_def)
  moreover have "\<forall>a. a < fresh h0 \<longrightarrow> cells h' a = cells h0 a"
    using old fr by (simp add: h')
  ultimately show ?thesis
    using e fr i len by (simp add: copy_inv_def acc' h')
qed

lemma inplace_inv:
  assumes h0: "store_ok h0" "slice_ok h0 r"
    and inv: "copy_inv h0 r i acc h" and i: "i < slice_len r"
    and b: "slice_array acc = Some b" and room: "slice_len acc < slice_cap acc"
    and acc': "acc' = acc\<lparr>slice_len := Suc (slice_len acc)\<rparr>"
    and h': "h' = h\<lparr>cells := (cells h)(b := map_option
                 (\<lambda>xs. xs[slice_len acc := slice_elems h0 r ! i]) (cells h b))\<rparr>"
  shows "copy_inv h0 r (Suc i) acc' h'"
proof -
  let ?x = "slice_elems h0 r ! i"
  from inv have ok: "store_ok h" "slice_ok h acc" and fr: "fresh h0 \<le> fresh h"
    and old: "\<forall>a. a < fresh h0 \<longrightarrow> cells h a = cells h0 a"
    and el: "slice_elems h acc = take i (slice_elems h0 r)" and len: "slice_len acc = i"
    and new: "fresh h0 \<le> b"
    by (simp_all add: copy_inv_def b)
  from ok(2) b obtain ys where ys: "cells h b = Some ys" and lys: "length ys = slice_cap acc"
    by (auto simp: slice_ok_def split: option.splits)
  from ok b have bf: "b < fresh h" by (rule slice_ok_in_store)
  have lr: "length (slice_elems h0 r) = slice_len r"
    using h0(2) by (rule length_slice_elems)
  have ea: "slice_elems h acc = take (slice_len acc) ys"
    by (simp add: slice_elems_def b ys)
  have "slice_elems h' acc' = take (Suc (slice_len acc)) (ys[slice_len acc := ?x])"
    by (simp add: slice_elems_def acc' h' b ys)
  also have "\<dots> = take (slice_len acc) ys @ [?x]"
    using room lys by (simp add: take_Suc_conv_app_nth)
  also have "\<dots> = take (Suc i) (slice_elems h0 r)"
    using i lr by (simp add: ea [symmetric] el take_Suc_conv_app_nth)
  finally have e: "slice_elems h' acc' = take (Suc i) (slice_elems h0 r)" .
  have "store_ok h'" using ok(1) bf by (auto simp: h' store_ok_def)
  moreover have "slice_ok h' acc'" using room lys by (simp add: acc' h' slice_ok_def b ys)
  moreover have "\<forall>a. a < fresh h0 \<longrightarrow> cells h' a = cells h0 a"
    using old new by (auto simp: h')
  ultimately show ?thesis
    using e fr i len new by (simp add: copy_inv_def acc' h' b)
qed

lemma go_append_inv:
  assumes grow: "\<forall>c. c < newcap c"
    and h0: "store_ok h0" "slice_ok h0 r"
    and inv: "copy_inv h0 r i acc h" and i: "i < slice_len r"
    and g: "go_append newcap acc (slice_elems h r ! i) h = (acc', h')"
  shows "copy_inv h0 r (Suc i) acc' h'"
proof -
  have same: "slice_elems h r = slice_elems h0 r"
    using h0 inv by (rule copy_inv_response)
  show ?thesis
  proof (cases "slice_array acc")
    case None
    with g same have "growslice newcap acc (slice_elems h0 r ! i) h = (acc', h')"
      by (simp add: go_append_def)
    with grow h0 inv i None show ?thesis
      by (intro growslice_inv [where acc = acc and h = h]) simp_all
  next
    case (Some b)
    show ?thesis
    proof (cases "slice_len acc < slice_cap acc")
      case True
      with g same Some
      have "acc' = acc\<lparr>slice_len := Suc (slice_len acc)\<rparr>"
        and "h' = h\<lparr>cells := (cells h)(b := map_option
                 (\<lambda>xs. xs[slice_len acc := slice_elems h0 r ! i]) (cells h b))\<rparr>"
        by (simp_all add: go_append_def)
      with h0 inv i Some True show ?thesis
        by (rule inplace_inv)
    next
      case False
      with g same Some have "growslice newcap acc (slice_elems h0 r ! i) h = (acc', h')"
        by (simp add: go_append_def)
      with grow h0 inv i False show ?thesis
        by (intro growslice_inv [where acc = acc and h = h]) simp_all
    qed
  qed
qed

lemma range_append_inv:
  "\<forall>c. c < newcap c \<Longrightarrow> store_ok h0 \<Longrightarrow> slice_ok h0 r \<Longrightarrow>
   copy_inv h0 r i acc h \<Longrightarrow> range_append newcap r i acc h = (res, h') \<Longrightarrow>
   copy_inv h0 r (slice_len r) res h'"
proof (induction newcap r i acc h rule: range_append.induct)
  case (1 newcap r i acc h)
  show ?case
  proof (cases "i < slice_len r")
    case True
    obtain acc1 h1 where g: "go_append newcap acc (slice_elems h r ! i) h = (acc1, h1)"
      by (cases "go_append newcap acc (slice_elems h r ! i) h")
    from "1.prems"(1,2,3,4) True g
    have "copy_inv h0 r (Suc i) acc1 h1"
      by (rule go_append_inv)
    moreover from "1.prems"(5) True g have "range_append newcap r (Suc i) acc1 h1 = (res, h')"
      by simp
    ultimately show ?thesis
      using "1.IH" True g "1.prems"(1,2,3) by metis
  next
    case False
    with "1.prems" have "res = acc" "h' = h" "i = slice_len r"
      by (simp_all add: copy_inv_def)
    with "1.prems" show ?thesis by simp
  qed
qed

lemma copy_inv_start:
  "store_ok h \<Longrightarrow> copy_inv h r 0 \<lparr>slice_array = None, slice_len = 0, slice_cap = 0\<rparr> h"
  by (simp add: copy_inv_def slice_ok_def slice_elems_def)

lemma copy_interfaces_inv:
  assumes "\<forall>c. c < newcap c" "store_ok h" "slice_ok h r"
    and "copy_interfaces newcap r h = (res, h')"
  shows "copy_inv h r (slice_len r) res h'"
  using assms(1-3) copy_inv_start [OF assms(2)] assms(4) [unfolded copy_interfaces_def]
  by (rule range_append_inv)

lemma lookup_returns_response:
  "LoadDefaultConfig sdk w = (Inr cfg, w1) \<Longrightarrow>
   DescribeNetworkInterfaces sdk cfg
      \<lparr>Filters = [\<lparr>Name = Some ''group-name'', Values = [n]\<rparr>]\<rparr> w1 = (Inr out, w2) \<Longrightarrow>
   getNetworkInterfacesForSecurityGroup sdk n w = (Inr (NetworkInterfaces out), w2)"
  by (simp add: getNetworkInterfacesForSecurityGroup_def foldl_snoc_copy)

text \<open>
  C6. When the configuration loads and the describe call succeeds, the lookup returns
  exactly the interface list of the response: every element, in the same order, nothing
  removed or added. On the store, for any capacity policy that grows, the loop's slice
  holds that same list with the same length, in an array that was not allocated before
  the loop and so is not the response's array; every array that existed before, the
  response's among them, is unchanged, and the response still holds its list.
\<close>

theorem C6_returns_fresh_copy_of_response:
  assumes "LoadDefaultConfig sdk w = (Inr cfg, w1)"
    and "DescribeNetworkInterfaces sdk cfg
           \<lparr>Filters = [\<lparr>Name = Some ''group-name'', Values = [n]\<rparr>]\<rparr> w1 = (Inr out, w2)"
    and "\<forall>c. c < newcap c" and "store_ok h" and "slice_ok h r"
    and "slice_elems h r = NetworkInterfaces out"
    and "copy_interfaces newcap r h = (res, h')"
  shows "getNetworkInterfacesForSecurityGroup sdk n w = (Inr (NetworkInterfaces out), w2)
    \<and> slice_elems h' res = NetworkInterfaces out
    \<and> slice_len res = length (NetworkInterfaces out)
    \<and> slice_elems h' r = NetworkInterfaces out
    \<and> (\<forall>a. a < fresh h \<longrightarrow> cells h' a = cells h a)
    \<and> (\<forall>b. slice_array res = Some b \<longrightarrow> cells h b = None \<and> slice_array r \<noteq> Some b)"
proof -
  from assms(3,4,5,7) have inv: "copy_inv h r (slice_len r) res h'"
    by (rule copy_interfaces_inv)
  have lr: "length (slice_elems h r) = slice_len r"
    using assms(5) by (rule length_slice_elems)
  have a: "slice_elems h' res = NetworkInterfaces out"
    using inv lr assms(6) by (simp add: copy_inv_def)
  have b: "slice_len res = length (NetworkInterfaces out)"
    using inv lr assms(6) by (simp add: copy_inv_def)
  have c: "slice_elems h' r = NetworkInterfaces out"
    using copy_inv_response [OF assms(4,5) inv] assms(6) by simp
  have d: "\<forall>a. a < fresh h \<longrightarrow> cells h' a = cells h a"
    using inv by (simp add: copy_inv_def)
  have e: "\<forall>b. slice_array res = Some b \<longrightarrow> cells h b = None \<and> slice_array r \<noteq> Some b"
  proof (intro allI impI)
    fix b assume "slice_array res = Some b"
    with inv have fb: "fresh h \<le> b" by (simp add: copy_inv_def)
    with assms(4) have "cells h b = None" by (simp add: store_ok_def)
    moreover have "slice_array r \<noteq> Some b"
    proof
      assume "slice_array r = Some b"
      with assms(4,5) have "b < fresh h" by (rule slice_ok_in_store)
      with fb show False by simp
    qed
    ultimately show "cells h b = None \<and> slice_array r \<noteq> Some b" ..
  qed
  from lookup_returns_response [OF assms(1,2)] a b c d e show ?thesis by blast
qed

theorem C6_witness:
  "getNetworkInterfacesForSecurityGroup (example_sdk example_table []) ''web'' 0
     = (Inr [eni_a, eni_b], 2)
   \<and> copy_interfaces (\<lambda>c. c + 2) example_response example_store =
       (\<lparr>slice_array = Some 1, slice_len = 2, slice_cap = 2\<rparr>,
        \<lparr>cells = Map.empty(0 \<mapsto> [eni_a, eni_b], 1 \<mapsto> [eni_a, eni_b]), fresh = 2\<rparr>)
   \<and> slice_elems \<lparr>cells = Map.empty(0 \<mapsto> [eni_a, eni_b], 1 \<mapsto> [eni_a, eni_b]), fresh = 2\<rparr>
        \<lparr>slice_array = Some 1, slice_len = 2, slice_cap = 2\<rparr> = [eni_a, eni_b]"
proof -
  let ?sdk = "example_sdk example_table []"
  let ?out = "\<lparr>NetworkInterfaces = [eni_a, eni_b]\<rparr>"
  let ?res = "\<lparr>slice_array = Some 1, slice_len = 2, slice_cap = 2\<rparr>"
  let ?h' = "\<lparr>cells = Map.empty(0 \<mapsto> [eni_a, eni_b], 1 \<mapsto> [eni_a, eni_b]), fresh = 2\<rparr>"
  have a: "LoadDefaultConfig ?sdk 0 = (Inr ''eu-west-2'', 1)"
    by (simp add: example_sdk_def)
  have b: "DescribeNetworkInterfaces ?sdk ''eu-west-2''
      \<lparr>Filters = [\<lparr>Name = Some ''group-name'', Values = [''web'']\<rparr>]\<rparr> 1 = (Inr ?out, 2)"
    by (simp add: example_sdk_def example_table_def numeral_2_eq_2)
  have c: "\<forall>c::nat. c < c + 2" by simp
  have d: "store_ok example_store" by (simp add: store_ok_def example_store_def)
  have e: "slice_ok example_store example_response"
    by (simp add: slice_ok_def example_store_def example_response_def)
  have f: "slice_elems example_store example_response = NetworkInterfaces ?out"
    by (simp add: slice_elems_def example_store_def example_response_def)
  have g: "copy_interfaces (\<lambda>c. c + 2) example_response example_store = (?res, ?h')"
    by (simp add: copy_interfaces_def go_append_def growslice_def slice_elems_def
        example_store_def example_response_def zero_NetworkInterface_def numeral_2_eq_2
        fun_upd_twist)
  from C6_returns_fresh_copy_of_response [OF a b c d e f g]
  have "getNetworkInterfacesForSecurityGroup ?sdk ''web'' 0 = (Inr (NetworkInterfaces ?out), 2)"
    and "slice_elems ?h' ?res = NetworkInterfaces ?out"
    by blast+
  with g show ?thesis by simp
qed

end
